theory Spec2Isabelle
  imports
    Main
    "HOL-Library.AList"
    "HOL-Library.Char_ord"
    "HOL-Library.List_Lexorder"
    "HOL-Library.Multiset"
    "HOL-Library.Sublist"
begin

section \<open>Values, errors and events\<close>

text \<open>
  The program reads YAML documents and handles the decoded values dynamically: it tests
  their truthiness, iterates over them and looks keys up in them. A decoded value is a
  \<open>yaml\<close>; a mapping is an association list in insertion order, as a Python \<open>dict\<close>
  iterates. Mapping keys are strings, as the annotations of \<open>conventor.py\<close> declare
  (\<open>Dict[str, ...]\<close>); floating-point scalars are left out. A character is a code point
  below 256.
\<close>

datatype yaml =
    YNull
  | YBool bool
  | YInt int
  | YStr string
  | YSeq "yaml list"
  | YMap "(string \<times> yaml) list"

type_synonym dict = "(string \<times> yaml) list"

text \<open>The exceptions that the modelled code can raise.\<close>

datatype error = KeyError | TypeError | AttributeError | ReError | OSError | YAMLError

text \<open>
  A path is the list of its components below the file-system root; \<open>..\<close> may occur in a
  path that has not been resolved.
\<close>

type_synonym path = "string list"

text \<open>
  The five \<open>logger.warning\<close> calls of the source, in source order, each with the name
  that its message interpolates.
\<close>

datatype warning =
    NotYaml string
  | IncludeEscapes string
  | SkipIndex
  | TableEscapes string
  | EmptySection

text \<open>What a run does to the outside world, in the order in which it does it.\<close>

datatype event =
    Warning warning
  | Mkdir path
  | WriteText path string
  | PublishFile path path

abbreviation newline :: char where
  "newline \<equiv> CHR 0x0A"

text \<open>Python's truth value of a decoded value (\<open>if x:\<close>, \<open>not x\<close>).\<close>

fun truthy :: "yaml \<Rightarrow> bool" where
  "truthy YNull = False"
| "truthy (YBool b) = b"
| "truthy (YInt i) = (i \<noteq> 0)"
| "truthy (YStr s) = (s \<noteq> [])"
| "truthy (YSeq xs) = (xs \<noteq> [])"
| "truthy (YMap m) = (m \<noteq> [])"

text \<open>\<open>d.get(k, default)\<close> on a dict.\<close>

definition dict_get :: "dict \<Rightarrow> string \<Rightarrow> yaml \<Rightarrow> yaml" where
  "dict_get d k dflt = (case map_of d k of None \<Rightarrow> dflt | Some v \<Rightarrow> v)"

text \<open>
  \<open>d.update(e)\<close>, and \<open>{**d, **e}\<close>: the entries of \<open>e\<close> are stored into \<open>d\<close> one after
  the other. Storing under a key that is already there keeps the key's position and
  replaces its value; a new key goes to the end.
\<close>

definition dict_update :: "dict \<Rightarrow> dict \<Rightarrow> dict" where
  "dict_update d e = fold (\<lambda>(k, v). AList.update k v) e d"

text \<open>
  \<open>for x in v\<close>: a sequence yields its items, a string its characters, a mapping its
  keys; the other values are not iterable.
\<close>

fun py_iter :: "yaml \<Rightarrow> error + yaml list" where
  "py_iter (YSeq xs) = Inr xs"
| "py_iter (YStr s) = Inr (map (\<lambda>c. YStr [c]) s)"
| "py_iter (YMap m) = Inr (map (\<lambda>(k, v). YStr k) m)"
| "py_iter v = Inl TypeError"

text \<open>\<open>s.split(sep)\<close> for a separator of one character: never an empty list.\<close>

fun split_on :: "char \<Rightarrow> string \<Rightarrow> string list" where
  "split_on sep [] = [[]]"
| "split_on sep (c # cs) =
     (if c = sep then [] # split_on sep cs
      else (case split_on sep cs of [] \<Rightarrow> [[c]] | l # ls \<Rightarrow> (c # l) # ls))"

section \<open>Macro substitution\<close>

text \<open>
  \<open>re.sub\<close> belongs to Python's library. The functions below take it as the parameter
  \<open>re_sub pattern repl content\<close>, which returns the new text or the exception raised (an
  invalid pattern or replacement, a replacement or content that is not a string).

  The loop of \<open>macro_substitute\<close>:
  \<^verbatim>\<open>
  for find, replace in macros_to_process.items():
      content = re.sub(find, replace, content)
  return content
  \<close>
  (\<open>find\<close> and \<open>replace\<close> are \<open>pat\<close> and \<open>repl\<close> below.)
\<close>

fun apply_rules :: "(string \<Rightarrow> yaml \<Rightarrow> yaml \<Rightarrow> error + string) \<Rightarrow> dict \<Rightarrow> yaml \<Rightarrow> error + yaml" where
  "apply_rules re_sub [] content = Inr content"
| "apply_rules re_sub ((pat, repl) # rules) content =
     (case re_sub pat repl content of
        Inl e \<Rightarrow> Inl e
      | Inr s \<Rightarrow> apply_rules re_sub rules (YStr s))"

text \<open>
  \<^verbatim>\<open>
  macros_to_process = {
      **self.macros["everywhere"],
      **self.macros.get(section, {}),
  }
  \<close>
  Subscripting a mapping without the key raises \<open>KeyError\<close>; subscripting any other
  decoded value with a string, and unpacking a value that is not a mapping, raise
  \<open>TypeError\<close>.
\<close>

definition macro_substitute ::
  "(string \<Rightarrow> yaml \<Rightarrow> yaml \<Rightarrow> error + string) \<Rightarrow> yaml \<Rightarrow> yaml \<Rightarrow> string \<Rightarrow> error + yaml" where
  "macro_substitute re_sub macros content section =
     (case macros of
        YMap m \<Rightarrow>
          (case map_of m ''everywhere'' of
             None \<Rightarrow> Inl KeyError
           | Some (YMap everywhere) \<Rightarrow>
               (case dict_get m section (YMap []) of
                  YMap scoped \<Rightarrow> apply_rules re_sub (dict_update everywhere scoped) content
                | _ \<Rightarrow> Inl TypeError)
           | Some _ \<Rightarrow> Inl TypeError)
      | _ \<Rightarrow> Inl TypeError)"

text \<open>
  An instance of the parameter for concrete runs: what \<open>re.sub\<close> returns when the pattern
  is made of ordinary characters only (no metacharacter of the regular-expression syntax)
  and the replacement has no backslash. Every occurrence of the pattern, found from left to
  right without overlap, is replaced; an empty pattern matches before every character and
  at the end.
\<close>

function replace_all :: "string \<Rightarrow> string \<Rightarrow> string \<Rightarrow> string" where
  "replace_all pat repl [] = (if pat = [] then repl else [])"
| "replace_all pat repl (c # cs) =
     (if pat = [] then repl @ c # replace_all pat repl cs
      else if prefix pat (c # cs)
        then repl @ replace_all pat repl (drop (length pat) (c # cs))
      else c # replace_all pat repl cs)"
  by pat_completeness auto
termination
  by (relation "measure (\<lambda>(pat, repl, s). length s)") auto

definition literal_sub :: "string \<Rightarrow> yaml \<Rightarrow> yaml \<Rightarrow> error + string" where
  "literal_sub pat repl content =
     (case (repl, content) of
        (YStr r, YStr s) \<Rightarrow> Inr (replace_all pat r s)
      | _ \<Rightarrow> Inl TypeError)"

section \<open>Table rendering\<close>

text \<open>
  The sort key of \<open>get_rst_table\<close> is \<open>re.sub("[\W_]+", "", key)\<close>, a fixed pattern, modelled
  directly. \<open>\w\<close> matches the alphanumeric characters (\<open>str.isalnum\<close>) and the underscore;
  \<open>\W\<close> is its complement; the class \<open>[\W_]\<close> is \<open>\W\<close> or the underscore. Deleting every
  maximal run of characters of the class deletes exactly the characters of the class.
\<close>

definition is_alnum :: "char \<Rightarrow> bool" where
  "is_alnum c =
     (let n = (of_char c :: nat)
      in (48 \<le> n \<and> n \<le> 57) \<or> (65 \<le> n \<and> n \<le> 90) \<or> (97 \<le> n \<and> n \<le> 122)
         \<or> n \<in> {170, 178, 179, 181, 185, 186, 188, 189, 190}
         \<or> (192 \<le> n \<and> n \<noteq> 215 \<and> n \<noteq> 247))"

definition is_word :: "char \<Rightarrow> bool" where
  "is_word c = (is_alnum c \<or> c = CHR ''_'')"

definition in_resort_class :: "char \<Rightarrow> bool" where
  "in_resort_class c = (\<not> is_word c \<or> c = CHR ''_'')"

definition resort_key :: "string \<Rightarrow> string" where
  "resort_key key = filter (\<lambda>c. \<not> in_resort_class c) key"

text \<open>
  \<^verbatim>\<open>
  for key in all_keys:
      if key == "__re-sort__":
          continue
      left = key
      right = contents.get(key)
      table.add_row([self.macro_substitute(left, "left"),
                     self.macro_substitute(right, "right")])
  \<close>
  The rows added so far are the accumulator.
\<close>

fun add_rows ::
  "(string \<Rightarrow> yaml \<Rightarrow> yaml \<Rightarrow> error + string) \<Rightarrow> yaml \<Rightarrow> dict \<Rightarrow> string list
     \<Rightarrow> (yaml \<times> yaml) list \<Rightarrow> error + (yaml \<times> yaml) list" where
  "add_rows re_sub macros contents [] rows = Inr rows"
| "add_rows re_sub macros contents (key # keys) rows =
     (if key = ''__re-sort__'' then add_rows re_sub macros contents keys rows
      else
        (case macro_substitute re_sub macros (YStr key) ''left'' of
           Inl e \<Rightarrow> Inl e
         | Inr left \<Rightarrow>
             (case macro_substitute re_sub macros (dict_get contents key YNull) ''right'' of
                Inl e \<Rightarrow> Inl e
              | Inr right \<Rightarrow> add_rows re_sub macros contents keys (rows @ [(left, right)]))))"

text \<open>
  \<^verbatim>\<open>
  table_contents = f".. table::\n    :widths: auto\n\n"
  for row in table.get_string().split("\n"):
      table_contents += f"    {row}\n"
  \<close>
\<close>

definition table_directive :: "string \<Rightarrow> string" where
  "table_directive rendered =
     ''.. table::'' @ [newline] @ ''    :widths: auto'' @ [newline, newline]
       @ concat (map (\<lambda>row. ''    '' @ row @ [newline]) (split_on newline rendered))"

definition no_entries :: "string \<Rightarrow> string" where
  "no_entries name = [newline] @ ''**Table <'' @ name @ ''> has no entries**'' @ [newline]"

text \<open>
  \<open>get_string rows\<close> is the parameter for \<open>PrettyTable.get_string\<close> of the table set up in
  the source (no header, rules around every row, both columns aligned left) after the
  given rows were added. A truthy definition that is not a mapping has no \<open>keys\<close>.
\<close>

definition get_rst_table ::
  "((yaml \<times> yaml) list \<Rightarrow> string) \<Rightarrow> (string \<Rightarrow> yaml \<Rightarrow> yaml \<Rightarrow> error + string) \<Rightarrow> yaml
     \<Rightarrow> string \<Rightarrow> yaml \<Rightarrow> error + string" where
  "get_rst_table get_string re_sub macros name contents =
     (if \<not> truthy contents then Inr (no_entries name)
      else
        (case contents of
           YMap m \<Rightarrow>
             (let all_keys =
                    (if truthy (dict_get m ''__re-sort__'' (YBool False))
                     then sort_key resort_key (map fst m)
                     else map fst m)
              in (case add_rows re_sub macros m all_keys [] of
                    Inl e \<Rightarrow> Inl e
                  | Inr rows \<Rightarrow> Inr (table_directive (get_string rows))))
         | _ \<Rightarrow> Inl AttributeError))"

section \<open>Index composition\<close>

text \<open>
  \<open>format v\<close> is the parameter for what an f-string makes of a value that is not a string;
  a string is interpolated as it is.
\<close>

definition py_format :: "(yaml \<Rightarrow> string) \<Rightarrow> yaml \<Rightarrow> string" where
  "py_format format v = (case v of YStr s \<Rightarrow> s | _ \<Rightarrow> format v)"

text \<open>\<open>max\<close> of a list of lengths; the source calls it on a list that is never empty.\<close>

definition py_max :: "nat list \<Rightarrow> nat" where
  "py_max ns = foldr max ns 0"

text \<open>
  The loop of \<open>get_index_rst\<close>; \<open>output\<close> is the text built so far, \<open>evs\<close> the events so
  far. A section that is not a mapping has no \<open>get\<close>; a substituted title that is not a
  string has no \<open>split\<close>; contents that are not a string cannot be appended to a string.
\<close>

fun index_loop ::
  "(string \<Rightarrow> yaml \<Rightarrow> yaml \<Rightarrow> error + string) \<Rightarrow> (yaml \<Rightarrow> string) \<Rightarrow> yaml \<Rightarrow> yaml list
     \<Rightarrow> string \<Rightarrow> event list \<Rightarrow> event list \<times> (error + string)" where
  "index_loop re_sub format macros [] output evs = (evs, Inr output)"
| "index_loop re_sub format macros (section # sections) output evs =
     (case section of
        YMap s \<Rightarrow>
          (let title = dict_get s ''title'' YNull;
               anchor = dict_get s ''anchor'' YNull;
               contents = dict_get s ''contents'' YNull;
               hidden = dict_get s ''hidden'' (YBool False)
           in if title = YNull \<or> contents = YNull
              then index_loop re_sub format macros sections output (evs @ [Warning EmptySection])
              else
                (case macro_substitute re_sub macros title ''title'' of
                   Inl e \<Rightarrow> (evs, Inl e)
                 | Inr title' \<Rightarrow>
                     (case macro_substitute re_sub macros contents ''contents'' of
                        Inl e \<Rightarrow> (evs, Inl e)
                      | Inr contents' \<Rightarrow>
                          (case title' of
                             YStr t \<Rightarrow>
                               (let max_line_length = py_max (map length (split_on newline t));
                                    heading =
                                      (if \<not> truthy hidden
                                       then [newline]
                                         @ (if truthy anchor
                                            then ''.. _'' @ py_format format anchor @ '':''
                                              @ [newline, newline]
                                            else [])
                                         @ replicate max_line_length CHR ''-'' @ [newline]
                                         @ t @ [newline]
                                         @ replicate max_line_length CHR ''-''
                                         @ [newline, newline]
                                       else [])
                                in (case contents' of
                                      YStr c \<Rightarrow>
                                        index_loop re_sub format macros sections
                                          (output @ heading @ c) evs
                                    | _ \<Rightarrow> (evs, Inl TypeError)))
                           | _ \<Rightarrow> (evs, Inl AttributeError)))))
      | _ \<Rightarrow> (evs, Inl AttributeError))"

definition get_index_rst ::
  "(string \<Rightarrow> yaml \<Rightarrow> yaml \<Rightarrow> error + string) \<Rightarrow> (yaml \<Rightarrow> string) \<Rightarrow> yaml \<Rightarrow> yaml
     \<Rightarrow> event list \<Rightarrow> event list \<times> (error + string)" where
  "get_index_rst re_sub format macros sections evs =
     (case py_iter sections of
        Inl e \<Rightarrow> (evs, Inl e)
      | Inr items \<Rightarrow> index_loop re_sub format macros items [] evs)"

section \<open>Paths\<close>

text \<open>
  \<open>pathlib\<close> on a POSIX file system without symbolic links, as of CPython 3.11. The
  directories handed to the program (\<open>input_path.parent\<close>, \<open>output_dir\<close>) are absolute.
  \<open>path_parts\<close> splits a string at the slashes and drops empty components and \<open>.\<close>, as the
  \<open>Path\<close> constructor does; \<open>joinpath base s\<close> is \<open>base / s\<close>, where an absolute \<open>s\<close> replaces
  the base; \<open>resolve\<close> removes each \<open>..\<close> with the component before it (at the root, \<open>..\<close>
  stays at the root).
\<close>

definition path_parts :: "string \<Rightarrow> path" where
  "path_parts s = filter (\<lambda>p. p \<noteq> [] \<and> p \<noteq> ''.'') (split_on CHR ''/'' s)"

definition joinpath :: "path \<Rightarrow> string \<Rightarrow> path" where
  "joinpath base s = (if s \<noteq> [] \<and> hd s = CHR ''/'' then path_parts s else base @ path_parts s)"

definition resolve :: "path \<Rightarrow> path" where
  "resolve p = fold (\<lambda>c acc. if c = ''..'' then butlast acc else acc @ [c]) p []"

text \<open>\<open>p.parent\<close>, and \<open>p.parents\<close> from the nearest ancestor to the root.\<close>

definition path_parent :: "path \<Rightarrow> path" where
  "path_parent p = butlast p"

definition path_parents :: "path \<Rightarrow> path list" where
  "path_parents p = map (\<lambda>n. take n p) (rev [0..<length p])"

text \<open>
  \<open>p.name\<close> is the last component. With \<open>i = name.rfind(".")\<close>, \<open>p.suffix\<close> is
  \<open>name[i:]\<close> and \<open>p.stem\<close> is \<open>name[:i]\<close> when \<open>0 < i < len(name) - 1\<close>; otherwise the suffix
  is empty and the stem is the name. \<open>dot_index\<close> is that \<open>i\<close>, when it is in the range.
\<close>

definition path_name :: "path \<Rightarrow> string" where
  "path_name p = (if p = [] then [] else last p)"

definition dot_index :: "string \<Rightarrow> nat option" where
  "dot_index name =
     (let r = length (takeWhile (\<lambda>c. c \<noteq> CHR ''.'') (rev name))
      in if 0 < r \<and> r + 1 < length name then Some (length name - 1 - r) else None)"

definition path_suffix :: "path \<Rightarrow> string" where
  "path_suffix p = (case dot_index (path_name p) of None \<Rightarrow> [] | Some i \<Rightarrow> drop i (path_name p))"

definition path_stem :: "path \<Rightarrow> string" where
  "path_stem p =
     (case dot_index (path_name p) of None \<Rightarrow> path_name p | Some i \<Rightarrow> take i (path_name p))"

section \<open>Loading\<close>

record conventor =
  macros :: yaml
  sections :: yaml
  tables :: dict

text \<open>
  \<open>load p\<close> is the parameter for \<open>yaml.safe_load(open(p))\<close>: the decoded document, or the
  exception of a file that cannot be opened or parsed.

  The loop over the include list; \<open>parent\<close> is \<open>input_path.parent\<close>. The entry must be a
  string to be joined to a path; an included document that is not a mapping has no
  \<open>items\<close>. The first test logs and goes on; the second logs and takes the next entry.
  \<^verbatim>\<open>
  i_path = (input_path.parent / i).resolve()
  if i_path.suffix != ".yaml":
      logger.warning(...)
  if input_path.parent.resolve() not in i_path.parents:
      logger.warning(...)
      continue
  included_data = yaml.safe_load(open(i_path))
  input_data.update({(i_path.stem + "/" + key): value
                     for key, value in included_data.items()})
  \<close>
\<close>

fun include_loop ::
  "(path \<Rightarrow> error + yaml) \<Rightarrow> path \<Rightarrow> yaml list \<Rightarrow> dict \<Rightarrow> event list
     \<Rightarrow> event list \<times> (error + dict)" where
  "include_loop load parent [] input_data evs = (evs, Inr input_data)"
| "include_loop load parent (i # rest) input_data evs =
     (case i of
        YStr s \<Rightarrow>
          (let i_path = resolve (joinpath parent s);
               evs1 = (if path_suffix i_path \<noteq> ''.yaml''
                       then evs @ [Warning (NotYaml s)] else evs)
           in if resolve parent \<notin> set (path_parents i_path)
              then include_loop load parent rest input_data
                     (evs1 @ [Warning (IncludeEscapes s)])
              else
                (case load i_path of
                   Inl e \<Rightarrow> (evs1, Inl e)
                 | Inr (YMap included_data) \<Rightarrow>
                     include_loop load parent rest
                       (dict_update input_data
                          (dict_update []
                             (map (\<lambda>(key, value). (path_stem i_path @ ''/'' @ key, value))
                                included_data)))
                       evs1
                 | Inr _ \<Rightarrow> (evs1, Inl AttributeError)))
      | _ \<Rightarrow> (evs, Inl TypeError))"

text \<open>
  \<open>Conventor.__init__\<close>. \<open>pop\<close> without a default raises \<open>KeyError\<close> for a missing key;
  a root document that is a sequence has a \<open>pop\<close> that rejects a string, any other
  document that is not a mapping has no \<open>pop\<close>.
\<close>

definition conventor_init ::
  "(path \<Rightarrow> error + yaml) \<Rightarrow> path \<Rightarrow> event list \<times> (error + conventor)" where
  "conventor_init load input_path =
     (case load input_path of
        Inl e \<Rightarrow> ([], Inl e)
      | Inr (YMap input_data) \<Rightarrow>
          (case map_of input_data ''include'' of
             None \<Rightarrow> ([], Inl KeyError)
           | Some include \<Rightarrow>
               (case py_iter include of
                  Inl e \<Rightarrow> ([], Inl e)
                | Inr entries \<Rightarrow>
                    (case include_loop load (path_parent input_path) entries
                            (AList.delete ''include'' input_data) [] of
                       (evs, Inl e) \<Rightarrow> (evs, Inl e)
                     | (evs, Inr d) \<Rightarrow>
                         (case map_of d ''macros'' of
                            None \<Rightarrow> (evs, Inl KeyError)
                          | Some m \<Rightarrow>
                              (case map_of (AList.delete ''macros'' d) ''sections'' of
                                 None \<Rightarrow> (evs, Inl KeyError)
                               | Some ss \<Rightarrow>
                                   (evs, Inr \<lparr>macros = m, sections = ss,
                                      tables = AList.delete ''sections''
                                        (AList.delete ''macros'' d)\<rparr>))))))
      | Inr (YSeq xs) \<Rightarrow> ([], Inl TypeError)
      | Inr _ \<Rightarrow> ([], Inl AttributeError))"

section \<open>Publishing\<close>

text \<open>
  The loop of \<open>process\<close> over the tables. The events record what is attempted on the file
  system; a failing file operation is not modelled. The text of a table is computed after
  its directory is made and before the file is written.
  \<^verbatim>\<open>
  if table == "index":
      logger.warning(...)
      continue
  rst_table_path = output_dir / f"{table}.rst"
  if output_dir.resolve() not in rst_table_path.resolve().parents:
      logger.warning(...)
  rst_table_path.parent.mkdir(parents=True, exist_ok=True)
  rst_table_path.write_text(self.get_rst_table(table, contents))
  \<close>
\<close>

fun process_tables ::
  "((yaml \<times> yaml) list \<Rightarrow> string) \<Rightarrow> (string \<Rightarrow> yaml \<Rightarrow> yaml \<Rightarrow> error + string) \<Rightarrow> yaml
     \<Rightarrow> path \<Rightarrow> dict \<Rightarrow> event list \<Rightarrow> event list \<times> error option" where
  "process_tables get_string re_sub mcs output_dir [] evs = (evs, None)"
| "process_tables get_string re_sub mcs output_dir ((table, contents) # rest) evs =
     (if table = ''index''
      then process_tables get_string re_sub mcs output_dir rest (evs @ [Warning SkipIndex])
      else
        (let rst_table_path = joinpath output_dir (table @ ''.rst'');
             evs1 = (if resolve output_dir \<notin> set (path_parents (resolve rst_table_path))
                     then evs @ [Warning (TableEscapes table)] else evs);
             evs2 = evs1 @ [Mkdir (path_parent rst_table_path)]
         in (case get_rst_table get_string re_sub mcs table contents of
               Inl e \<Rightarrow> (evs2, Some e)
             | Inr text \<Rightarrow>
                 process_tables get_string re_sub mcs output_dir rest
                   (evs2 @ [WriteText rst_table_path text]))))"

definition process ::
  "((yaml \<times> yaml) list \<Rightarrow> string) \<Rightarrow> (string \<Rightarrow> yaml \<Rightarrow> yaml \<Rightarrow> error + string)
     \<Rightarrow> (yaml \<Rightarrow> string) \<Rightarrow> conventor \<Rightarrow> path \<Rightarrow> event list \<times> error option" where
  "process get_string re_sub format self output_dir =
     (case process_tables get_string re_sub (macros self) output_dir (tables self) [] of
        (evs, Some e) \<Rightarrow> (evs, Some e)
      | (evs, None) \<Rightarrow>
          (case get_index_rst re_sub format (macros self) (sections self) evs of
             (evs1, Inl e) \<Rightarrow> (evs1, Some e)
           | (evs1, Inr text) \<Rightarrow>
               (evs1 @ [WriteText (joinpath output_dir ''index.rst'') text,
                        PublishFile (joinpath output_dir ''index.rst'')
                          (joinpath output_dir ''index.html'')],
                None)))"

section \<open>Notions used to state the properties\<close>

text \<open>
  The sort key as the specification words it: every character that is not a letter, a
  digit or an underscore is stripped, so that underscores stay. It is compared with
  \<open>resort_key\<close>, which is the key of the source.
\<close>

definition resort_key_spec :: "string \<Rightarrow> string" where
  "resort_key_spec key = filter is_word key"

text \<open>
  \<open>row_of re_sub mcs key val row\<close>: the left cell of the row is the key after macro
  substitution in the scope \<open>left\<close>, the right cell is the value after macro substitution
  in the scope \<open>right\<close>, and neither substitution raises.
\<close>

definition row_of ::
  "(string \<Rightarrow> yaml \<Rightarrow> yaml \<Rightarrow> error + string) \<Rightarrow> yaml \<Rightarrow> string \<Rightarrow> yaml \<Rightarrow> yaml \<times> yaml \<Rightarrow> bool" where
  "row_of re_sub mcs key val row =
     (macro_substitute re_sub mcs (YStr key) ''left'' = Inr (fst row)
      \<and> macro_substitute re_sub mcs val ''right'' = Inr (snd row))"

text \<open>
  A stand-in for the table renderer in concrete runs. It is not the layout of PrettyTable:
  it writes one line per row, the two cells separated by a bar.
\<close>

fun cell_text :: "yaml \<Rightarrow> string" where
  "cell_text (YStr s) = s"
| "cell_text v = ''?''"

fun row_lines :: "(yaml \<times> yaml) list \<Rightarrow> string" where
  "row_lines [] = []"
| "row_lines [(l, r)] = cell_text l @ '' | '' @ cell_text r"
| "row_lines ((l, r) # rows) = cell_text l @ '' | '' @ cell_text r @ [newline] @ row_lines rows"

text \<open>
  A file system for concrete runs of the loader: the files that exist, each with the
  document it decodes to; opening any other path fails.
\<close>

definition load_from :: "(path \<times> yaml) list \<Rightarrow> path \<Rightarrow> error + yaml" where
  "load_from files p = (case map_of files p of None \<Rightarrow> Inl OSError | Some v \<Rightarrow> Inr v)"

section \<open>Properties of macro substitution\<close>

lemma apply_rules_append:
  "apply_rules re_sub (rs @ rs') c =
     (case apply_rules re_sub rs c of Inl e \<Rightarrow> Inl e | Inr c' \<Rightarrow> apply_rules re_sub rs' c')"
  by (induction rs arbitrary: c) (auto split: sum.splits)

lemma dict_update_Nil: "dict_update d [] = d"
  by (simp add: dict_update_def)

lemma update_present_id:
  "distinct (map fst d) \<Longrightarrow> (k, v) \<in> set d \<Longrightarrow> AList.update k v d = d"
  by (induction d) (auto simp: rev_image_eqI)

lemma fold_update_present:
  "distinct (map fst d) \<Longrightarrow> set e \<subseteq> set d \<Longrightarrow> fold (\<lambda>(k, v). AList.update k v) e d = d"
  by (induction e) (auto simp: update_present_id)

lemma dict_update_self: "distinct (map fst d) \<Longrightarrow> dict_update d d = d"
  by (simp add: dict_update_def fold_update_present)

lemma map_of_fold_update:
  "map_of (fold (\<lambda>(k, v). AList.update k v) e d) = map_of d ++ map_of (rev e)"
proof (induction e arbitrary: d)
  case Nil
  then show ?case by simp
next
  case (Cons x e)
  obtain k v where x: "x = (k, v)" by (cases x)
  have "map_of (fold (\<lambda>(k, v). AList.update k v) e (AList.update k v d))
      = map_of (AList.update k v d) ++ map_of (rev e)"
    by (rule Cons.IH)
  then show ?case using x by (simp add: update_conv' map_add_upd_left)
qed

lemma keys_fold_update:
  "distinct (map fst e)
    \<Longrightarrow> map fst (fold (\<lambda>(k, v). AList.update k v) e d)
      = map fst d @ filter (\<lambda>k. k \<notin> set (map fst d)) (map fst e)"
proof (induction e arbitrary: d)
  case Nil
  then show ?case by simp
next
  case (Cons x e)
  obtain k v where x: "x = (k, v)" by (cases x)
  have d: "distinct (map fst e)" and n: "k \<notin> set (map fst e)"
    using Cons.prems x by auto
  have ih: "map fst (fold (\<lambda>(k, v). AList.update k v) e (AList.update k v d))
      = map fst (AList.update k v d)
        @ filter (\<lambda>k'. k' \<notin> set (map fst (AList.update k v d))) (map fst e)"
    by (rule Cons.IH [OF d])
  show ?case
  proof (cases "k \<in> set (map fst d)")
    case True
    then show ?thesis using ih x by (simp add: update_keys)
  next
    case False
    have "filter (\<lambda>k'. k' \<notin> set (map fst d @ [k])) (map fst e)
        = filter (\<lambda>k'. k' \<notin> set (map fst d)) (map fst e)"
      using n by (auto intro: filter_cong)
    then show ?thesis using ih x False by (simp add: update_keys)
  qed
qed

lemma map_of_rev_distinct: "distinct (map fst e) \<Longrightarrow> map_of (rev e) = map_of e"
proof (induction e)
  case Nil
  then show ?case by simp
next
  case (Cons x e)
  obtain k v where x: "x = (k, v)" by (cases x)
  have "k \<notin> dom (map_of e)" using Cons.prems x by (simp add: dom_map_of_conv_image_fst)
  then have "[k \<mapsto> v] ++ map_of e = map_of e ++ [k \<mapsto> v]"
    by (intro map_add_comm) simp
  then show ?case using Cons x by simp
qed

lemma dict_update_overlay:
  assumes "distinct (map fst e)"
  shows "map_of (dict_update d e) = map_of d ++ map_of e"
    and "map fst (dict_update d e)
       = map fst d @ filter (\<lambda>k. k \<notin> set (map fst d)) (map fst e)"
  using assms
  by (simp_all add: dict_update_def map_of_fold_update keys_fold_update map_of_rev_distinct)

text \<open>
  C1. The rules that \<open>macro_substitute\<close> applies are the \<open>everywhere\<close> rules updated with
  the rules of the scope: a scope rule replaces the \<open>everywhere\<close> rule with the same pattern,
  in that rule's place, and the other scope rules follow the \<open>everywhere\<close> rules in their
  own order. The rules are applied in the iteration order of that merged mapping, one after
  the other: the last rule works on the result of all the rules before it, and an exception
  of an earlier rule ends the substitution. With the rules \<open>a \<rightarrow> b\<close>, \<open>b \<rightarrow> c\<close> and a
  regular-expression engine that rewrites \<open>a\<close> to \<open>b\<close> and \<open>b\<close> to \<open>c\<close> on those texts, the
  text \<open>a\<close> becomes \<open>c\<close> in every scope.
\<close>

theorem macro_substitute_sequential:
  "(map_of m ''everywhere'' = Some (YMap everywhere) \<and> dict_get m section (YMap []) = YMap scoped
      \<longrightarrow> macro_substitute re_sub (YMap m) content section
            = apply_rules re_sub (dict_update everywhere scoped) content)
   \<and> (distinct (map fst scoped)
      \<longrightarrow> map_of (dict_update everywhere scoped) = map_of everywhere ++ map_of scoped
        \<and> map fst (dict_update everywhere scoped)
            = map fst everywhere
              @ filter (\<lambda>k. k \<notin> set (map fst everywhere)) (map fst scoped))
   \<and> apply_rules re_sub (rules @ [(pat, repl)]) content
       = (case apply_rules re_sub rules content of
            Inl e \<Rightarrow> Inl e
          | Inr c \<Rightarrow> (case re_sub pat repl c of Inl e \<Rightarrow> Inl e | Inr s \<Rightarrow> Inr (YStr s)))
   \<and> (re_sub ''a'' (YStr ''b'') (YStr ''a'') = Inr ''b''
        \<and> re_sub ''b'' (YStr ''c'') (YStr ''b'') = Inr ''c''
      \<longrightarrow> macro_substitute re_sub
            (YMap [(''everywhere'', YMap [(''a'', YStr ''b''), (''b'', YStr ''c'')])])
            (YStr ''a'') section = Inr (YStr ''c''))"
proof (intro conjI impI)
  assume "map_of m ''everywhere'' = Some (YMap everywhere)
    \<and> dict_get m section (YMap []) = YMap scoped"
  then show "macro_substitute re_sub (YMap m) content section
            = apply_rules re_sub (dict_update everywhere scoped) content"
    by (simp add: macro_substitute_def)
next
  assume "distinct (map fst scoped)"
  then show "map_of (dict_update everywhere scoped) = map_of everywhere ++ map_of scoped"
    by (rule dict_update_overlay(1))
next
  assume "distinct (map fst scoped)"
  then show "map fst (dict_update everywhere scoped)
            = map fst everywhere
              @ filter (\<lambda>k. k \<notin> set (map fst everywhere)) (map fst scoped)"
    by (rule dict_update_overlay(2))
next
  show "apply_rules re_sub (rules @ [(pat, repl)]) content
       = (case apply_rules re_sub rules content of
            Inl e \<Rightarrow> Inl e
          | Inr c \<Rightarrow> (case re_sub pat repl c of Inl e \<Rightarrow> Inl e | Inr s \<Rightarrow> Inr (YStr s)))"
    by (simp add: apply_rules_append split: sum.splits)
next
  assume h: "re_sub ''a'' (YStr ''b'') (YStr ''a'') = Inr ''b''
        \<and> re_sub ''b'' (YStr ''c'') (YStr ''b'') = Inr ''c''"
  show "macro_substitute re_sub
            (YMap [(''everywhere'', YMap [(''a'', YStr ''b''), (''b'', YStr ''c'')])])
            (YStr ''a'') section = Inr (YStr ''c'')"
  proof (cases "section = ''everywhere''")
    case True
    then show ?thesis
      using h by (simp add: macro_substitute_def dict_get_def dict_update_def)
  next
    case False
    then show ?thesis
      using h by (simp add: macro_substitute_def dict_get_def dict_update_def)
  qed
qed

theorem macro_substitute_sequential_witness:
  "macro_substitute literal_sub
     (YMap [(''everywhere'', YMap [(''a'', YStr ''b''), (''b'', YStr ''c'')]),
            (''title'', YMap [(''c'', YStr ''d'')])])
     (YStr ''a'') ''title''
     = apply_rules literal_sub
         [(''a'', YStr ''b''), (''b'', YStr ''c''), (''c'', YStr ''d'')] (YStr ''a'')
   \<and> map fst (dict_update [(''a'', YStr ''b''), (''b'', YStr ''c'')]
                  [(''c'', YStr ''d''), (''a'', YStr ''z'')])
       = [''a'', ''b'', ''c'']
   \<and> macro_substitute literal_sub
       (YMap [(''everywhere'', YMap [(''a'', YStr ''b''), (''b'', YStr ''c'')])])
       (YStr ''a'') ''left'' = Inr (YStr ''c'')"
proof (intro conjI)
  note t = macro_substitute_sequential
    [of "[(''everywhere'', YMap [(''a'', YStr ''b''), (''b'', YStr ''c'')]),
          (''title'', YMap [(''c'', YStr ''d'')])]"
        "[(''a'', YStr ''b''), (''b'', YStr ''c'')]" "''title''" "[(''c'', YStr ''d'')]"
        literal_sub "YStr ''a''" "[]" "''x''" "YStr ''y''"]
  have "macro_substitute literal_sub
     (YMap [(''everywhere'', YMap [(''a'', YStr ''b''), (''b'', YStr ''c'')]),
            (''title'', YMap [(''c'', YStr ''d'')])])
     (YStr ''a'') ''title''
     = apply_rules literal_sub
         (dict_update [(''a'', YStr ''b''), (''b'', YStr ''c'')] [(''c'', YStr ''d'')])
         (YStr ''a'')"
    by (rule t [THEN conjunct1, THEN mp]) (simp add: dict_get_def)
  then show "macro_substitute literal_sub
     (YMap [(''everywhere'', YMap [(''a'', YStr ''b''), (''b'', YStr ''c'')]),
            (''title'', YMap [(''c'', YStr ''d'')])])
     (YStr ''a'') ''title''
     = apply_rules literal_sub
         [(''a'', YStr ''b''), (''b'', YStr ''c''), (''c'', YStr ''d'')] (YStr ''a'')"
    by (simp add: dict_update_def)
next
  have d: "distinct (map fst [(''c'', YStr ''d''), (''a'', YStr ''z'')])" by simp
  note o = macro_substitute_sequential
    [of "[]" "[(''a'', YStr ''b''), (''b'', YStr ''c'')]" "''title''"
        "[(''c'', YStr ''d''), (''a'', YStr ''z'')]" literal_sub "YNull" "[]" "''x''" "YNull",
     THEN conjunct2, THEN conjunct1, THEN mp, OF d, THEN conjunct2]
  show "map fst (dict_update [(''a'', YStr ''b''), (''b'', YStr ''c'')]
                  [(''c'', YStr ''d''), (''a'', YStr ''z'')])
       = [''a'', ''b'', ''c'']"
    by (simp only: o) simp
next
  show "macro_substitute literal_sub
       (YMap [(''everywhere'', YMap [(''a'', YStr ''b''), (''b'', YStr ''c'')])])
       (YStr ''a'') ''left'' = Inr (YStr ''c'')"
    by (rule macro_substitute_sequential
          [THEN conjunct2, THEN conjunct2, THEN conjunct2, THEN mp])
       (simp add: literal_sub_def)
qed

text \<open>
  C9. When the macro set holds the \<open>everywhere\<close> rules and nothing else, substitution gives
  the same result (or raises the same exception) in every scope, the scope named
  \<open>everywhere\<close> included. The keys of the rule mapping are distinct, as the keys of a
  Python \<open>dict\<close> are.
\<close>

theorem everywhere_only_scope_independent:
  assumes "\<forall>rules. everywhere = YMap rules \<longrightarrow> distinct (map fst rules)"
  shows "macro_substitute re_sub (YMap [(''everywhere'', everywhere)]) text scope1
       = macro_substitute re_sub (YMap [(''everywhere'', everywhere)]) text scope2"
proof -
  have "macro_substitute re_sub (YMap [(''everywhere'', everywhere)]) text scope
       = (case everywhere of YMap rules \<Rightarrow> apply_rules re_sub rules text | _ \<Rightarrow> Inl TypeError)"
    for scope
    using assms
    by (cases everywhere)
       (auto simp: macro_substitute_def dict_get_def dict_update_self dict_update_Nil)
  then show ?thesis by simp
qed

theorem everywhere_only_scope_independent_witness:
  "distinct (map fst [(''a'', YStr ''b'')])
   \<and> macro_substitute literal_sub (YMap [(''everywhere'', YMap [(''a'', YStr ''b'')])])
       (YStr ''banana'') ''everywhere''
     = macro_substitute literal_sub (YMap [(''everywhere'', YMap [(''a'', YStr ''b'')])])
         (YStr ''banana'') ''title''"
proof
  show "distinct (map fst [(''a'', YStr ''b'')])" by simp
next
  show "macro_substitute literal_sub (YMap [(''everywhere'', YMap [(''a'', YStr ''b'')])])
       (YStr ''banana'') ''everywhere''
     = macro_substitute literal_sub (YMap [(''everywhere'', YMap [(''a'', YStr ''b'')])])
         (YStr ''banana'') ''title''"
    by (rule everywhere_only_scope_independent) simp
qed

section \<open>Properties of table rendering\<close>

text \<open>
  C10. A table definition that is an empty mapping is rendered as a missing (null)
  definition is: as the placeholder text that names the table, for every table name.
\<close>

theorem empty_table_placeholder:
  "get_rst_table get_string re_sub mcs name (YMap [])
     = get_rst_table get_string re_sub mcs name YNull
   \<and> get_rst_table get_string re_sub mcs name (YMap [])
       = Inr ([newline] @ ''**Table <'' @ name @ ''> has no entries**'' @ [newline])"
  by (simp add: get_rst_table_def no_entries_def)

lemma add_rows_Inr_iff:
  "add_rows re_sub mcs m keys rows0 = Inr rows \<longleftrightarrow>
     (\<exists>new. rows = rows0 @ new
        \<and> list_all2 (\<lambda>k row. row_of re_sub mcs k (dict_get m k YNull) row)
             (filter (\<lambda>k. k \<noteq> ''__re-sort__'') keys) new)"
proof (induction keys arbitrary: rows0)
  case Nil
  then show ?case by auto
next
  case (Cons key keys)
  show ?case
  proof (cases "key = ''__re-sort__''")
    case True
    then show ?thesis using Cons.IH by simp
  next
    case False
    show ?thesis
    proof (cases "macro_substitute re_sub mcs (YStr key) ''left''")
      case (Inl e)
      then show ?thesis using False by (auto simp: row_of_def list_all2_Cons1)
    next
      case left: (Inr l)
      show ?thesis
      proof (cases "macro_substitute re_sub mcs (dict_get m key YNull) ''right''")
        case (Inl e)
        then show ?thesis using False left by (auto simp: row_of_def list_all2_Cons1)
      next
        case right: (Inr r)
        have "add_rows re_sub mcs m (key # keys) rows0
            = add_rows re_sub mcs m keys (rows0 @ [(l, r)])"
          using False left right by simp
        moreover have
          "(\<exists>new. rows = (rows0 @ [(l, r)]) @ new
              \<and> list_all2 (\<lambda>k row. row_of re_sub mcs k (dict_get m k YNull) row)
                   (filter (\<lambda>k. k \<noteq> ''__re-sort__'') keys) new)
           \<longleftrightarrow> (\<exists>new. rows = rows0 @ new
              \<and> list_all2 (\<lambda>k row. row_of re_sub mcs k (dict_get m k YNull) row)
                   (filter (\<lambda>k. k \<noteq> ''__re-sort__'') (key # keys)) new)"
          using False left right by (auto simp: row_of_def list_all2_Cons1)
        ultimately show ?thesis using Cons.IH by simp
      qed
    qed
  qed
qed

lemma dict_get_distinct:
  "distinct (map fst m) \<Longrightarrow> (k, v) \<in> set m \<Longrightarrow> dict_get m k d = v"
  by (simp add: dict_get_def)

lemma rows_by_keys_or_items:
  assumes "distinct (map fst m)"
  shows "list_all2 (\<lambda>k row. row_of re_sub mcs k (dict_get m k YNull) row)
           (filter (\<lambda>k. k \<noteq> ''__re-sort__'') (map fst m)) rows
       \<longleftrightarrow> list_all2 (\<lambda>(k, v) row. row_of re_sub mcs k v row)
           (filter (\<lambda>(k, v). k \<noteq> ''__re-sort__'') m) rows"
proof -
  have "filter (\<lambda>k. k \<noteq> ''__re-sort__'') (map fst m)
      = map fst (filter (\<lambda>(k, v). k \<noteq> ''__re-sort__'') m)"
    by (induction m) auto
  moreover have
    "list_all2 (\<lambda>kv row. row_of re_sub mcs (fst kv) (dict_get m (fst kv) YNull) row)
       (filter (\<lambda>(k, v). k \<noteq> ''__re-sort__'') m) rows
     = list_all2 (\<lambda>(k, v) row. row_of re_sub mcs k v row)
         (filter (\<lambda>(k, v). k \<noteq> ''__re-sort__'') m) rows"
    by (rule list.rel_cong) (auto simp: dict_get_distinct [OF assms])
  ultimately show ?thesis by (simp add: list_all2_map1)
qed

lemma resort_key_alnum: "resort_key key = filter is_alnum key"
proof -
  have "\<not> is_alnum CHR ''_''" by (simp add: is_alnum_def)
  then have "(\<not> in_resort_class c) = is_alnum c" for c
    by (auto simp: in_resort_class_def is_word_def)
  then show ?thesis by (simp add: resort_key_def)
qed

text \<open>
  C8. For a table definition that is a non-empty mapping whose \<open>__re-sort__\<close> entry is
  falsy or absent, rendering succeeds exactly when every cell can be substituted, and then
  the rendered rows are, in the insertion order of the mapping, one row for each entry
  other than \<open>__re-sort__\<close>: the key substituted in the scope \<open>left\<close>, the value in the
  scope \<open>right\<close>. (An empty mapping gives the placeholder text, see C10.)
\<close>

theorem unsorted_rows_in_insertion_order:
  assumes "distinct (map fst m)" and "m \<noteq> []"
    and "\<not> truthy (dict_get m ''__re-sort__'' (YBool False))"
  shows "get_rst_table get_string re_sub mcs name (YMap m) = Inr text \<longleftrightarrow>
     (\<exists>rows. text = table_directive (get_string rows)
        \<and> list_all2 (\<lambda>(k, v) row. row_of re_sub mcs k v row)
             (filter (\<lambda>(k, v). k \<noteq> ''__re-sort__'') m) rows)"
proof -
  have "get_rst_table get_string re_sub mcs name (YMap m) = Inr text \<longleftrightarrow>
     (\<exists>rows. add_rows re_sub mcs m (map fst m) [] = Inr rows
        \<and> text = table_directive (get_string rows))"
    using assms(2,3) by (auto simp: get_rst_table_def split: sum.splits)
  then show ?thesis
    by (auto simp: add_rows_Inr_iff rows_by_keys_or_items [OF assms(1)])
qed

theorem unsorted_rows_in_insertion_order_witness:
  "distinct (map fst [(''k2'', YStr ''v2''), (''__re-sort__'', YBool False), (''k1'', YStr ''v1'')])
   \<and> \<not> truthy (dict_get [(''k2'', YStr ''v2''), (''__re-sort__'', YBool False),
                          (''k1'', YStr ''v1'')] ''__re-sort__'' (YBool False))
   \<and> get_rst_table row_lines literal_sub (YMap [(''everywhere'', YMap [])]) ''t1''
       (YMap [(''k2'', YStr ''v2''), (''__re-sort__'', YBool False), (''k1'', YStr ''v1'')])
     = Inr (table_directive (row_lines [(YStr ''k2'', YStr ''v2''), (YStr ''k1'', YStr ''v1'')]))"
proof (intro conjI)
  show d: "distinct (map fst [(''k2'', YStr ''v2''), (''__re-sort__'', YBool False),
                              (''k1'', YStr ''v1'')])"
    by simp
  show f: "\<not> truthy (dict_get [(''k2'', YStr ''v2''), (''__re-sort__'', YBool False),
                          (''k1'', YStr ''v1'')] ''__re-sort__'' (YBool False))"
    by (simp add: dict_get_def)
  have n: "[(''k2'', YStr ''v2''), (''__re-sort__'', YBool False), (''k1'', YStr ''v1'')] \<noteq> []"
    by simp
  show "get_rst_table row_lines literal_sub (YMap [(''everywhere'', YMap [])]) ''t1''
       (YMap [(''k2'', YStr ''v2''), (''__re-sort__'', YBool False), (''k1'', YStr ''v1'')])
     = Inr (table_directive (row_lines [(YStr ''k2'', YStr ''v2''), (YStr ''k1'', YStr ''v1'')]))"
    by (rule unsorted_rows_in_insertion_order [OF d n f, THEN iffD2])
       (rule exI [of _ "[(YStr ''k2'', YStr ''v2''), (YStr ''k1'', YStr ''v1'')]"],
        simp add: row_of_def macro_substitute_def dict_get_def dict_update_def)
qed

text \<open>
  C2, as the code has it. For a table definition whose \<open>__re-sort__\<close> entry is truthy,
  rendering succeeds exactly when every cell can be substituted, and then the rows follow
  the keys sorted by their sort key: the rendered keys are the keys of the mapping
  without \<open>__re-sort__\<close>, ascending by sort key under the code-point order of strings. The
  sort key of a raw key keeps its letters and digits and strips everything else, the
  underscore too: the sort key of \<open>a_1\<close> is \<open>a1\<close>. The keys \<open>B-2\<close>, \<open>a_1\<close>, \<open>A 0\<close> are
  rendered in the order \<open>A 0\<close>, \<open>B-2\<close>, \<open>a_1\<close>.
\<close>

theorem resorted_rows_by_alnum_key:
  assumes "truthy (dict_get m ''__re-sort__'' (YBool False))"
  shows "(get_rst_table get_string re_sub mcs name (YMap m) = Inr text \<longleftrightarrow>
           (\<exists>rows. text = table_directive (get_string rows)
              \<and> list_all2 (\<lambda>k row. row_of re_sub mcs k (dict_get m k YNull) row)
                   (filter (\<lambda>k. k \<noteq> ''__re-sort__'') (sort_key resort_key (map fst m))) rows))
       \<and> sorted (map resort_key
           (filter (\<lambda>k. k \<noteq> ''__re-sort__'') (sort_key resort_key (map fst m))))
       \<and> mset (filter (\<lambda>k. k \<noteq> ''__re-sort__'') (sort_key resort_key (map fst m)))
           = mset (filter (\<lambda>k. k \<noteq> ''__re-sort__'') (map fst m))
       \<and> resort_key key = filter is_alnum key
       \<and> resort_key ''a_1'' = ''a1''
       \<and> filter (\<lambda>k. k \<noteq> ''__re-sort__'')
           (sort_key resort_key [''__re-sort__'', ''B-2'', ''a_1'', ''A 0''])
           = [''A 0'', ''B-2'', ''a_1'']"
proof (intro conjI)
  have "m \<noteq> []" using assms by (auto simp: dict_get_def)
  then have "get_rst_table get_string re_sub mcs name (YMap m) = Inr text \<longleftrightarrow>
     (\<exists>rows. add_rows re_sub mcs m (sort_key resort_key (map fst m)) [] = Inr rows
        \<and> text = table_directive (get_string rows))"
    using assms by (auto simp: get_rst_table_def split: sum.splits)
  then show "get_rst_table get_string re_sub mcs name (YMap m) = Inr text \<longleftrightarrow>
           (\<exists>rows. text = table_directive (get_string rows)
              \<and> list_all2 (\<lambda>k row. row_of re_sub mcs k (dict_get m k YNull) row)
                   (filter (\<lambda>k. k \<noteq> ''__re-sort__'') (sort_key resort_key (map fst m))) rows)"
    by (auto simp: add_rows_Inr_iff)
next
  show "sorted (map resort_key
           (filter (\<lambda>k. k \<noteq> ''__re-sort__'') (sort_key resort_key (map fst m))))"
    by (rule sorted_filter) (rule sorted_sort_key)
next
  show "mset (filter (\<lambda>k. k \<noteq> ''__re-sort__'') (sort_key resort_key (map fst m)))
           = mset (filter (\<lambda>k. k \<noteq> ''__re-sort__'') (map fst m))"
    by simp
next
  show "resort_key key = filter is_alnum key" by (rule resort_key_alnum)
next
  show "resort_key ''a_1'' = ''a1''"
    by (simp add: resort_key_alnum is_alnum_def)
next
  show "filter (\<lambda>k. k \<noteq> ''__re-sort__'')
           (sort_key resort_key [''__re-sort__'', ''B-2'', ''a_1'', ''A 0''])
           = [''A 0'', ''B-2'', ''a_1'']"
    by code_simp
qed

theorem resorted_rows_by_alnum_key_witness:
  "truthy (dict_get [(''__re-sort__'', YBool True), (''B-2'', YStr ''x''), (''a_1'', YStr ''y''),
                     (''A 0'', YStr ''z'')] ''__re-sort__'' (YBool False))
   \<and> get_rst_table row_lines literal_sub (YMap [(''everywhere'', YMap [])]) ''t1''
       (YMap [(''__re-sort__'', YBool True), (''B-2'', YStr ''x''), (''a_1'', YStr ''y''),
              (''A 0'', YStr ''z'')])
     = Inr (table_directive (row_lines
         [(YStr ''A 0'', YStr ''z''), (YStr ''B-2'', YStr ''x''), (YStr ''a_1'', YStr ''y'')]))"
proof (intro conjI)
  show t: "truthy (dict_get [(''__re-sort__'', YBool True), (''B-2'', YStr ''x''),
             (''a_1'', YStr ''y''), (''A 0'', YStr ''z'')] ''__re-sort__'' (YBool False))"
    by (simp add: dict_get_def)
  have s: "sort_key resort_key (map fst [(''__re-sort__'', YBool True), (''B-2'', YStr ''x''),
             (''a_1'', YStr ''y''), (''A 0'', YStr ''z'')])
           = [''A 0'', ''B-2'', ''a_1'', ''__re-sort__'']"
    by code_simp
  show "get_rst_table row_lines literal_sub (YMap [(''everywhere'', YMap [])]) ''t1''
       (YMap [(''__re-sort__'', YBool True), (''B-2'', YStr ''x''), (''a_1'', YStr ''y''),
              (''A 0'', YStr ''z'')])
     = Inr (table_directive (row_lines
         [(YStr ''A 0'', YStr ''z''), (YStr ''B-2'', YStr ''x''), (YStr ''a_1'', YStr ''y'')]))"
    by (rule resorted_rows_by_alnum_key [OF t, THEN conjunct1, THEN iffD2])
       (rule exI [of _ "[(YStr ''A 0'', YStr ''z''), (YStr ''B-2'', YStr ''x''),
                         (YStr ''a_1'', YStr ''y'')]"],
        simp only: s, simp add: row_of_def macro_substitute_def dict_get_def dict_update_def)
qed

text \<open>
  C2, as the specification words it, fails: the sort key of \<open>a_1\<close> is not \<open>a_1\<close>, and the
  keys \<open>a_c\<close>, \<open>ab\<close> are rendered \<open>ab\<close> first, whereas a sort key that kept underscores
  would put \<open>a_c\<close> first.
\<close>

theorem sort_key_keeps_underscore_counterexample:
  "resort_key ''a_1'' \<noteq> ''a_1''
   \<and> sort_key resort_key [''a_c'', ''ab''] = [''ab'', ''a_c'']
   \<and> sort_key resort_key_spec [''a_c'', ''ab''] = [''a_c'', ''ab'']"
proof (intro conjI)
  show "resort_key ''a_1'' \<noteq> ''a_1''" by (simp add: resort_key_alnum is_alnum_def)
  show "sort_key resort_key [''a_c'', ''ab''] = [''ab'', ''a_c'']" by code_simp
  show "sort_key resort_key_spec [''a_c'', ''ab''] = [''a_c'', ''ab'']" by code_simp
qed

section \<open>Properties of index composition\<close>

lemma split_on_not_Nil: "split_on sep s \<noteq> []"
  by (induction s) (auto split: list.splits)

lemma py_max_Max: "ns \<noteq> [] \<Longrightarrow> py_max ns = Max (set ns)"
proof (induction ns)
  case Nil
  then show ?case by simp
next
  case (Cons n ns)
  show ?case
  proof (cases "ns = []")
    case True
    then show ?thesis by (simp add: py_max_def)
  next
    case False
    then show ?thesis using Cons.IH by (simp add: py_max_def max.commute)
  qed
qed

text \<open>
  C6. A section whose title and contents are present, and are texts after macro
  substitution, adds to the index: when it is hidden (its \<open>hidden\<close> entry is truthy), its
  substituted contents and nothing else; otherwise a blank line, then, when its anchor is
  truthy, the line \<open>.. _anchor:\<close> and a blank line, then a rule of dashes as long as the
  longest line of the substituted title, the title, the same rule, a blank line and the
  substituted contents. An anchor that is missing, null or the empty string gives no
  marker; an anchor that is a string is written as it is. The hidden section with title
  \<open>T\<close> and contents \<open>C\<close> gives exactly \<open>C\<close>; the same section not hidden gives a blank
  line, a rule of one dash, \<open>T\<close>, a rule of one dash, a blank line and \<open>C\<close>.
\<close>

theorem section_fragment:
  assumes "dict_get s ''title'' YNull \<noteq> YNull"
    and "dict_get s ''contents'' YNull \<noteq> YNull"
    and "macro_substitute re_sub mcs (dict_get s ''title'' YNull) ''title'' = Inr (YStr t)"
    and "macro_substitute re_sub mcs (dict_get s ''contents'' YNull) ''contents'' = Inr (YStr c)"
  shows "index_loop re_sub format mcs (YMap s # rest) output evs
       = index_loop re_sub format mcs rest
           (output @
             (if truthy (dict_get s ''hidden'' (YBool False)) then c
              else [newline]
                @ (if truthy (dict_get s ''anchor'' YNull)
                   then ''.. _'' @ py_format format (dict_get s ''anchor'' YNull) @ '':''
                     @ [newline, newline]
                   else [])
                @ replicate (Max (set (map length (split_on newline t)))) CHR ''-'' @ [newline]
                @ t @ [newline]
                @ replicate (Max (set (map length (split_on newline t)))) CHR ''-''
                @ [newline, newline]
                @ c))
           evs
     \<and> py_format format (YStr a) = a
     \<and> get_index_rst re_sub format (YMap [(''everywhere'', YMap [])])
         (YSeq [YMap [(''title'', YStr ''T''), (''contents'', YStr ''C''),
                      (''hidden'', YBool True)]]) []
       = ([], Inr ''C'')
     \<and> get_index_rst re_sub format (YMap [(''everywhere'', YMap [])])
         (YSeq [YMap [(''title'', YStr ''T''), (''contents'', YStr ''C'')]]) []
       = ([], Inr ([newline] @ ''-'' @ [newline] @ ''T'' @ [newline] @ ''-''
                   @ [newline, newline] @ ''C''))"
proof (intro conjI)
  have m: "py_max (map length (split_on newline t))
         = Max (set (map length (split_on newline t)))"
    by (rule py_max_Max) (simp add: split_on_not_Nil)
  show "index_loop re_sub format mcs (YMap s # rest) output evs
       = index_loop re_sub format mcs rest
           (output @
             (if truthy (dict_get s ''hidden'' (YBool False)) then c
              else [newline]
                @ (if truthy (dict_get s ''anchor'' YNull)
                   then ''.. _'' @ py_format format (dict_get s ''anchor'' YNull) @ '':''
                     @ [newline, newline]
                   else [])
                @ replicate (Max (set (map length (split_on newline t)))) CHR ''-'' @ [newline]
                @ t @ [newline]
                @ replicate (Max (set (map length (split_on newline t)))) CHR ''-''
                @ [newline, newline]
                @ c))
           evs"
    using assms by (simp add: Let_def m del: set_map)
next
  show "py_format format (YStr a) = a" by (simp add: py_format_def)
next
  show "get_index_rst re_sub format (YMap [(''everywhere'', YMap [])])
         (YSeq [YMap [(''title'', YStr ''T''), (''contents'', YStr ''C''),
                      (''hidden'', YBool True)]]) []
       = ([], Inr ''C'')"
    by (simp add: get_index_rst_def dict_get_def macro_substitute_def dict_update_def)
next
  show "get_index_rst re_sub format (YMap [(''everywhere'', YMap [])])
         (YSeq [YMap [(''title'', YStr ''T''), (''contents'', YStr ''C'')]]) []
       = ([], Inr ([newline] @ ''-'' @ [newline] @ ''T'' @ [newline] @ ''-''
                   @ [newline, newline] @ ''C''))"
    by (simp add: get_index_rst_def dict_get_def macro_substitute_def dict_update_def
        py_max_def)
qed

theorem section_fragment_witness:
  "index_loop literal_sub (\<lambda>v. []) (YMap [(''everywhere'', YMap [(''X'', YStr ''Tables'')])])
     [YMap [(''title'', YStr ''X''), (''anchor'', YStr ''top''), (''contents'', YStr ''C'')]]
     ''pre'' []
   = ([], Inr (''pre'' @ [newline] @ ''.. _top:'' @ [newline, newline] @ ''------'' @ [newline]
        @ ''Tables'' @ [newline] @ ''------'' @ [newline, newline] @ ''C''))"
proof -
  let ?s = "[(''title'', YStr ''X''), (''anchor'', YStr ''top''), (''contents'', YStr ''C'')]"
  let ?m = "YMap [(''everywhere'', YMap [(''X'', YStr ''Tables'')])]"
  have 1: "dict_get ?s ''title'' YNull \<noteq> YNull" by (simp add: dict_get_def)
  have 2: "dict_get ?s ''contents'' YNull \<noteq> YNull" by (simp add: dict_get_def)
  have 3: "macro_substitute literal_sub ?m (dict_get ?s ''title'' YNull) ''title''
         = Inr (YStr ''Tables'')"
    by (simp add: dict_get_def macro_substitute_def dict_update_def literal_sub_def)
  have 4: "macro_substitute literal_sub ?m (dict_get ?s ''contents'' YNull) ''contents''
         = Inr (YStr ''C'')"
    by (simp add: dict_get_def macro_substitute_def dict_update_def literal_sub_def)
  note t = section_fragment [OF 1 2 3 4, of "\<lambda>v. []" "[]" "''pre''" "[]" "[]", THEN conjunct1]
  show ?thesis
    by (subst t) (simp add: dict_get_def py_format_def)
qed

section \<open>Properties of loading\<close>

lemma in_path_parents: "d \<in> set (path_parents p) \<longleftrightarrow> strict_prefix d p"
proof
  assume "d \<in> set (path_parents p)"
  then obtain n where "n < length p" "d = take n p"
    by (auto simp: path_parents_def)
  then show "strict_prefix d p"
    by (metis append_take_drop_id drop_eq_Nil2 not_le prefixI self_append_conv strict_prefix_def)
next
  assume "strict_prefix d p"
  then obtain z zs where "p = d @ z # zs" by (auto elim: strict_prefixE')
  then have "length d < length p" "d = take (length d) p" by auto
  then show "d \<in> set (path_parents p)"
    by (auto simp: path_parents_def)
qed

lemma resolve_append:
  "resolve (p @ q) = fold (\<lambda>c acc. if c = ''..'' then butlast acc else acc @ [c]) q (resolve p)"
  by (simp add: resolve_def)

lemma resolve_id: "''..'' \<notin> set p \<Longrightarrow> resolve p = p"
proof -
  have "''..'' \<notin> set p
    \<Longrightarrow> fold (\<lambda>c acc. if c = ''..'' then butlast acc else acc @ [c]) p acc = acc @ p" for acc
    by (induction p arbitrary: acc) auto
  then show "''..'' \<notin> set p \<Longrightarrow> resolve p = p" by (simp add: resolve_def)
qed

lemma parts_dotdot_secret: "path_parts ''../secret.yaml'' = [''..'', ''secret.yaml'']"
  by (simp add: path_parts_def)

text \<open>
  C3, at an input where the code departs from it. The root document \<open>/docs/root.yaml\<close>
  includes \<open>notes.txt\<close>, a file in its directory that holds the mapping \<open>k: v\<close>. The
  warning about the extension is logged, and the file is read and merged all the same: the
  namespace gets the key \<open>notes/k\<close>.
\<close>

theorem non_yaml_include_is_loaded:
  "conventor_init
     (load_from
        [([''docs'', ''root.yaml''],
          YMap [(''include'', YSeq [YStr ''notes.txt'']),
                (''macros'', YMap [(''everywhere'', YMap [])]),
                (''sections'', YSeq [])]),
         ([''docs'', ''notes.txt''], YMap [(''k'', YStr ''v'')])])
     [''docs'', ''root.yaml'']
   = ([Warning (NotYaml ''notes.txt'')],
      Inr \<lparr>macros = YMap [(''everywhere'', YMap [])], sections = YSeq [],
           tables = [(''notes/k'', YStr ''v'')]\<rparr>)"
  by (simp add: conventor_init_def load_from_def path_parent_def Let_def in_path_parents
      resolve_def joinpath_def path_parts_def path_suffix_def path_stem_def dot_index_def
      path_name_def dict_update_def)

text \<open>
  C4. An include entry whose resolved path is not inside the directory of the root
  document is skipped: the loop logs the warning (after the warning about the extension,
  when the extension is not \<open>.yaml\<close>) and goes on with the next entry, the namespace
  unchanged and the file not read. The entry \<open>../secret.yaml\<close> is such an entry for every
  resolved directory other than the file-system root, and so is the absolute path
  \<open>/etc/secret.yaml\<close> for the directory \<open>/docs\<close>.
\<close>

theorem escaping_include_skipped:
  "(\<not> strict_prefix (resolve parent) (resolve (joinpath parent i))
      \<longrightarrow> include_loop load parent (YStr i # rest) input_data evs
          = include_loop load parent rest input_data
              (evs @ (if path_suffix (resolve (joinpath parent i)) \<noteq> ''.yaml''
                      then [Warning (NotYaml i)] else [])
                   @ [Warning (IncludeEscapes i)]))
   \<and> (parent \<noteq> [] \<and> ''..'' \<notin> set parent
      \<longrightarrow> \<not> strict_prefix (resolve parent) (resolve (joinpath parent ''../secret.yaml'')))
   \<and> \<not> strict_prefix (resolve [''docs'']) (resolve (joinpath [''docs''] ''/etc/secret.yaml''))"
proof (intro conjI impI)
  assume "\<not> strict_prefix (resolve parent) (resolve (joinpath parent i))"
  then show "include_loop load parent (YStr i # rest) input_data evs
          = include_loop load parent rest input_data
              (evs @ (if path_suffix (resolve (joinpath parent i)) \<noteq> ''.yaml''
                      then [Warning (NotYaml i)] else [])
                   @ [Warning (IncludeEscapes i)])"
    by (simp add: Let_def in_path_parents)
next
  assume a: "parent \<noteq> [] \<and> ''..'' \<notin> set parent"
  then have "resolve (joinpath parent ''../secret.yaml'') = butlast parent @ [''secret.yaml'']"
    by (simp add: joinpath_def parts_dotdot_secret resolve_append resolve_id)
  moreover have "length (butlast parent @ [''secret.yaml'']) = length parent"
    using a by simp
  ultimately show
    "\<not> strict_prefix (resolve parent) (resolve (joinpath parent ''../secret.yaml''))"
    using a by (metis prefix_length_less resolve_id less_irrefl)
next
  show "\<not> strict_prefix (resolve [''docs'']) (resolve (joinpath [''docs''] ''/etc/secret.yaml''))"
    by (simp add: resolve_def joinpath_def path_parts_def)
qed

theorem escaping_include_skipped_witness:
  "conventor_init
     (load_from
        [([''docs'', ''root.yaml''],
          YMap [(''include'', YSeq [YStr ''../secret.yaml'']),
                (''macros'', YMap [(''everywhere'', YMap [])]),
                (''sections'', YSeq []),
                (''t1'', YNull)]),
         ([''secret.yaml''], YMap [(''password'', YStr ''hunter2'')])])
     [''docs'', ''root.yaml'']
   = ([Warning (IncludeEscapes ''../secret.yaml'')],
      Inr \<lparr>macros = YMap [(''everywhere'', YMap [])], sections = YSeq [],
           tables = [(''t1'', YNull)]\<rparr>)"
proof -
  have e: "\<not> strict_prefix (resolve [''docs''])
             (resolve (joinpath [''docs''] ''../secret.yaml''))"
    by (rule escaping_include_skipped [THEN conjunct2, THEN conjunct1, THEN mp]) simp
  have s: "path_suffix (resolve (joinpath [''docs''] ''../secret.yaml'')) = ''.yaml''"
    by (simp add: path_suffix_def dot_index_def path_name_def resolve_def joinpath_def
        path_parts_def)
  note step = escaping_include_skipped [THEN conjunct1, THEN mp, OF e]
  show ?thesis
    by (simp add: conventor_init_def load_from_def path_parent_def step s
        del: include_loop.simps(2))
qed

lemma map_of_dict_update_other:
  "k \<notin> fst ` set e \<Longrightarrow> map_of (dict_update d e) k = map_of d k"
proof -
  have "k \<notin> fst ` set e \<Longrightarrow> map_of (fold (\<lambda>(k, v). AList.update k v) e d) k = map_of d k"
    by (induction e arbitrary: d) (auto simp: update_conv')
  then show "k \<notin> fst ` set e \<Longrightarrow> map_of (dict_update d e) k = map_of d k"
    by (simp add: dict_update_def)
qed

lemma keys_dict_update: "fst ` set (dict_update d e) = fst ` set d \<union> fst ` set e"
proof -
  have "fst ` set (fold (\<lambda>(k, v). AList.update k v) e d) = fst ` set d \<union> fst ` set e"
  proof (induction e arbitrary: d)
    case Nil
    then show ?case by simp
  next
    case (Cons x e)
    obtain a b where x: "x = (a, b)" by (cases x)
    have "fst ` set (fold (\<lambda>(k, v). AList.update k v) e (AList.update a b d))
        = ({a} \<union> fst ` set d) \<union> fst ` set e"
      using Cons.IH [of "AList.update a b d"] by (simp only: dom_update)
    then show ?case using x by auto
  qed
  then show ?thesis by (simp add: dict_update_def)
qed

lemma qualified_key_has_slash:
  "k \<in> fst ` set (dict_update [] (map (\<lambda>(key, value). (stem @ ''/'' @ key, value)) inc))
    \<Longrightarrow> CHR ''/'' \<in> set k"
  by (auto simp: keys_dict_update)

lemma include_loop_keeps:
  "include_loop load parent entries d evs = (evs', Inr d') \<Longrightarrow> CHR ''/'' \<notin> set k
     \<Longrightarrow> map_of d' k = map_of d k"
proof (induction entries arbitrary: d evs)
  case Nil
  then show ?case by simp
next
  case (Cons x entries)
  from Cons.prems(1) obtain i where x: "x = YStr i"
    by (cases x) auto
  show ?case
  proof (cases "resolve parent \<in> set (path_parents (resolve (joinpath parent i)))")
    case False
    then show ?thesis
      using Cons.prems Cons.IH x by (auto simp: Let_def split: if_splits)
  next
    case True
    with Cons.prems(1) x obtain inc where
      l: "load (resolve (joinpath parent i)) = Inr (YMap inc)"
      by (auto simp: Let_def split: sum.splits yaml.splits)
    let ?q = "dict_update []
      (map (\<lambda>(key, value). (path_stem (resolve (joinpath parent i)) @ ''/'' @ key, value)) inc)"
    have "\<exists>evs1. include_loop load parent entries (dict_update d ?q) evs1 = (evs', Inr d')"
      using Cons.prems(1) x True l by (auto simp: Let_def)
    then have "map_of d' k = map_of (dict_update d ?q) k"
      using Cons.IH Cons.prems(2) by blast
    moreover have "k \<notin> fst ` set ?q"
      using Cons.prems(2) qualified_key_has_slash by blast
    ultimately show ?thesis by (simp add: map_of_dict_update_other)
  qed
qed

lemma include_loop_all_escape:
  "\<forall>x\<in>set entries. \<exists>i. x = YStr i
       \<and> \<not> strict_prefix (resolve parent) (resolve (joinpath parent i))
     \<Longrightarrow> snd (include_loop load parent entries d evs) = Inr d"
  by (induction entries arbitrary: evs) (auto simp: Let_def in_path_parents)

text \<open>
  C5, as the code has it. For a root document that is a mapping: without an \<open>include\<close>
  key, loading fails with \<open>KeyError\<close>; when the include entries are processed without an
  exception, loading fails with \<open>KeyError\<close> exactly when the root document lacks
  \<open>macros\<close> or \<open>sections\<close>, and completes otherwise. In particular loading completes when
  the root document has \<open>macros\<close>, \<open>sections\<close> and an \<open>include\<close> list whose entries (if
  any) all lead outside its directory.
\<close>

theorem load_required_keys:
  assumes "load input_path = Inr (YMap input_data)"
  shows
    "(map_of input_data ''include'' = None
        \<longrightarrow> conventor_init load input_path = ([], Inl KeyError))
     \<and> (map_of input_data ''include'' = Some inc \<and> py_iter inc = Inr entries
          \<and> include_loop load (path_parent input_path) entries
                (AList.delete ''include'' input_data) [] = (evs, Inr d)
        \<longrightarrow> conventor_init load input_path
            = (evs,
               case map_of input_data ''macros'' of
                 None \<Rightarrow> Inl KeyError
               | Some m \<Rightarrow>
                   (case map_of input_data ''sections'' of
                      None \<Rightarrow> Inl KeyError
                    | Some ss \<Rightarrow>
                        Inr \<lparr>macros = m, sections = ss,
                             tables = AList.delete ''sections'' (AList.delete ''macros'' d)\<rparr>)))
     \<and> (map_of input_data ''include'' = Some (YSeq entries)
          \<and> (\<forall>x\<in>set entries. \<exists>i. x = YStr i
                \<and> \<not> strict_prefix (resolve (path_parent input_path))
                      (resolve (joinpath (path_parent input_path) i)))
          \<and> map_of input_data ''macros'' = Some m
          \<and> map_of input_data ''sections'' = Some ss
        \<longrightarrow> snd (conventor_init load input_path)
            = Inr \<lparr>macros = m, sections = ss,
                   tables = AList.delete ''sections''
                     (AList.delete ''macros'' (AList.delete ''include'' input_data))\<rparr>)"
proof (intro conjI impI)
  assume "map_of input_data ''include'' = None"
  then show "conventor_init load input_path = ([], Inl KeyError)"
    using assms by (simp add: conventor_init_def)
next
  assume a: "map_of input_data ''include'' = Some inc \<and> py_iter inc = Inr entries
          \<and> include_loop load (path_parent input_path) entries
                (AList.delete ''include'' input_data) [] = (evs, Inr d)"
  have k: "map_of d k = map_of input_data k" if "k = ''macros'' \<or> k = ''sections''" for k
  proof -
    have "CHR ''/'' \<notin> set k" using that by auto
    then have "map_of d k = map_of (AList.delete ''include'' input_data) k"
      using a include_loop_keeps by blast
    then show ?thesis using that by (auto simp: delete_conv')
  qed
  have "map_of (AList.delete ''macros'' d) ''sections'' = map_of input_data ''sections''"
    using k [of "''sections''"] by (simp add: delete_conv')
  then show "conventor_init load input_path
            = (evs,
               case map_of input_data ''macros'' of
                 None \<Rightarrow> Inl KeyError
               | Some m \<Rightarrow>
                   (case map_of input_data ''sections'' of
                      None \<Rightarrow> Inl KeyError
                    | Some ss \<Rightarrow>
                        Inr \<lparr>macros = m, sections = ss,
                             tables = AList.delete ''sections'' (AList.delete ''macros'' d)\<rparr>))"
    using assms a k [of "''macros''"]
    by (simp add: conventor_init_def split: option.splits)
next
  let ?parent = "path_parent input_path"
  let ?d = "AList.delete ''include'' input_data"
  assume a: "map_of input_data ''include'' = Some (YSeq entries)
          \<and> (\<forall>x\<in>set entries. \<exists>i. x = YStr i
                \<and> \<not> strict_prefix (resolve ?parent) (resolve (joinpath ?parent i)))
          \<and> map_of input_data ''macros'' = Some m
          \<and> map_of input_data ''sections'' = Some ss"
  then have "snd (include_loop load ?parent entries ?d []) = Inr ?d"
    using include_loop_all_escape by blast
  then obtain evs where "include_loop load ?parent entries ?d [] = (evs, Inr ?d)"
    by (metis prod.collapse)
  then show "snd (conventor_init load input_path)
            = Inr \<lparr>macros = m, sections = ss,
                   tables = AList.delete ''sections''
                     (AList.delete ''macros'' (AList.delete ''include'' input_data))\<rparr>"
    using assms a by (simp add: conventor_init_def delete_conv')
qed

theorem load_required_keys_witness:
  "conventor_init
     (load_from
        [([''docs'', ''root.yaml''],
          YMap [(''t1'', YMap [(''k1'', YStr ''v1'')]),
                (''sections'', YSeq []),
                (''include'', YSeq []),
                (''macros'', YMap [(''everywhere'', YMap [])])])])
     [''docs'', ''root.yaml'']
   = ([], Inr \<lparr>macros = YMap [(''everywhere'', YMap [])], sections = YSeq [],
                tables = [(''t1'', YMap [(''k1'', YStr ''v1'')])]\<rparr>)
   \<and> snd (conventor_init
       (load_from
          [([''docs'', ''root.yaml''],
            YMap [(''include'', YSeq [YStr ''../secret.yaml'']),
                  (''macros'', YMap [(''everywhere'', YMap [])]),
                  (''sections'', YSeq [])])])
       [''docs'', ''root.yaml''])
     = Inr \<lparr>macros = YMap [(''everywhere'', YMap [])], sections = YSeq [], tables = []\<rparr>"
proof
  let ?doc = "[(''t1'', YMap [(''k1'', YStr ''v1'')]), (''sections'', YSeq []),
               (''include'', YSeq []), (''macros'', YMap [(''everywhere'', YMap [])])]"
  have l: "load_from [([''docs'', ''root.yaml''], YMap ?doc)] [''docs'', ''root.yaml'']
         = Inr (YMap ?doc)"
    by (simp add: load_from_def)
  have "conventor_init (load_from [([''docs'', ''root.yaml''], YMap ?doc)])
          [''docs'', ''root.yaml'']
      = ([],
         case map_of ?doc ''macros'' of
           None \<Rightarrow> Inl KeyError
         | Some m \<Rightarrow>
             (case map_of ?doc ''sections'' of
                None \<Rightarrow> Inl KeyError
              | Some ss \<Rightarrow>
                  Inr \<lparr>macros = m, sections = ss,
                       tables = AList.delete ''sections''
                         (AList.delete ''macros'' (AList.delete ''include'' ?doc))\<rparr>))"
    by (rule load_required_keys
          [of "load_from [([''docs'', ''root.yaml''], YMap ?doc)]" "[''docs'', ''root.yaml'']"
              ?doc "YSeq []" "[]" "[]" "AList.delete ''include'' ?doc",
           OF l, THEN conjunct2, THEN conjunct1, THEN mp])
       simp
  then show "conventor_init (load_from [([''docs'', ''root.yaml''], YMap ?doc)])
          [''docs'', ''root.yaml'']
      = ([], Inr \<lparr>macros = YMap [(''everywhere'', YMap [])], sections = YSeq [],
                tables = [(''t1'', YMap [(''k1'', YStr ''v1'')])]\<rparr>)"
    by simp
next
  let ?doc = "[(''include'', YSeq [YStr ''../secret.yaml'']),
               (''macros'', YMap [(''everywhere'', YMap [])]), (''sections'', YSeq [])]"
  have l: "load_from [([''docs'', ''root.yaml''], YMap ?doc)] [''docs'', ''root.yaml'']
         = Inr (YMap ?doc)"
    by (simp add: load_from_def)
  have "snd (conventor_init (load_from [([''docs'', ''root.yaml''], YMap ?doc)])
          [''docs'', ''root.yaml''])
      = Inr \<lparr>macros = YMap [(''everywhere'', YMap [])], sections = YSeq [],
               tables = AList.delete ''sections''
                 (AList.delete ''macros'' (AList.delete ''include'' ?doc))\<rparr>"
    by (rule load_required_keys
          [of "load_from [([''docs'', ''root.yaml''], YMap ?doc)]" "[''docs'', ''root.yaml'']"
              ?doc "YNull" "[YStr ''../secret.yaml'']" "[]" "[]",
           OF l, THEN conjunct2, THEN conjunct2, THEN mp])
       (simp add: path_parent_def resolve_def joinpath_def path_parts_def)
  then show "snd (conventor_init (load_from [([''docs'', ''root.yaml''], YMap ?doc)])
          [''docs'', ''root.yaml''])
      = Inr \<lparr>macros = YMap [(''everywhere'', YMap [])], sections = YSeq [], tables = []\<rparr>"
    by simp
qed

text \<open>
  C5, as the specification words it, fails: a root document that parses and has \<open>macros\<close>
  and \<open>sections\<close> but no \<open>include\<close> key is not loaded; \<open>pop("include")\<close> raises.
\<close>

theorem missing_include_counterexample:
  "conventor_init
     (load_from
        [([''docs'', ''root.yaml''],
          YMap [(''macros'', YMap [(''everywhere'', YMap [])]),
                (''sections'', YSeq [])])])
     [''docs'', ''root.yaml'']
   = ([], Inl KeyError)"
  by (simp add: conventor_init_def load_from_def)

section \<open>Properties of publishing\<close>

lemma process_tables_prefix:
  "prefix evs (fst (process_tables get_string re_sub mcs output_dir tbls evs))"
proof (induction tbls arbitrary: evs)
  case Nil
  then show ?case by simp
next
  case (Cons tc tbls)
  obtain table contents where tc: "tc = (table, contents)" by (cases tc)
  show ?case
  proof (cases "table = ''index''")
    case True
    have "prefix (evs @ [Warning SkipIndex])
       (fst (process_tables get_string re_sub mcs output_dir tbls (evs @ [Warning SkipIndex])))"
      by (rule Cons.IH)
    then have "prefix evs
       (fst (process_tables get_string re_sub mcs output_dir tbls (evs @ [Warning SkipIndex])))"
      by (rule append_prefixD)
    then show ?thesis using tc True by simp
  next
    case False
    show ?thesis
    proof (cases "get_rst_table get_string re_sub mcs table contents")
      case (Inl e)
      then show ?thesis using tc False by (simp add: Let_def)
    next
      case (Inr rendered)
      define p where "p = joinpath output_dir (table @ ''.rst'')"
      define extra where "extra =
        (if resolve output_dir \<notin> set (path_parents (resolve p))
         then [Warning (TableEscapes table)] else [])
        @ [Mkdir (path_parent p), WriteText p rendered]"
      have step: "process_tables get_string re_sub mcs output_dir (tc # tbls) evs
          = process_tables get_string re_sub mcs output_dir tbls (evs @ extra)"
        using tc False Inr by (simp add: Let_def p_def extra_def)
      have "prefix (evs @ extra)
          (fst (process_tables get_string re_sub mcs output_dir tbls (evs @ extra)))"
        by (rule Cons.IH)
      then have "prefix evs
          (fst (process_tables get_string re_sub mcs output_dir tbls (evs @ extra)))"
        by (rule append_prefixD)
      then show ?thesis by (simp only: step)
    qed
  qed
qed

text \<open>
  C7. For a table that is not named \<open>index\<close> and whose text can be rendered, one pass of
  the loop of \<open>process\<close> logs the warning about the destination exactly when the resolved
  destination is not inside the resolved output directory, and in either case makes the
  directory and writes the text to the destination before it goes on with the next table;
  the write is part of what the whole loop does. The table \<open>../evil\<close> leaves the output
  directory \<open>/out\<close>, the table \<open>t1\<close> stays inside it.
\<close>

theorem table_escape_logged_not_enforced:
  assumes "table \<noteq> ''index''"
    and "get_rst_table get_string re_sub mcs table contents = Inr text"
  shows "process_tables get_string re_sub mcs output_dir ((table, contents) # rest) evs
       = process_tables get_string re_sub mcs output_dir rest
           (evs
            @ (if strict_prefix (resolve output_dir)
                    (resolve (joinpath output_dir (table @ ''.rst'')))
               then [] else [Warning (TableEscapes table)])
            @ [Mkdir (path_parent (joinpath output_dir (table @ ''.rst''))),
               WriteText (joinpath output_dir (table @ ''.rst'')) text])
     \<and> WriteText (joinpath output_dir (table @ ''.rst'')) text
         \<in> set (fst (process_tables get_string re_sub mcs output_dir
                       ((table, contents) # rest) evs))
     \<and> \<not> strict_prefix (resolve [''out'']) (resolve (joinpath [''out''] (''../evil'' @ ''.rst'')))
     \<and> strict_prefix (resolve [''out'']) (resolve (joinpath [''out''] (''t1'' @ ''.rst'')))"
proof (intro conjI)
  let ?p = "joinpath output_dir (table @ ''.rst'')"
  let ?evs = "evs
            @ (if strict_prefix (resolve output_dir) (resolve ?p)
               then [] else [Warning (TableEscapes table)])
            @ [Mkdir (path_parent ?p), WriteText ?p text]"
  show step: "process_tables get_string re_sub mcs output_dir ((table, contents) # rest) evs
       = process_tables get_string re_sub mcs output_dir rest ?evs"
    using assms by (simp add: Let_def in_path_parents)
  have "prefix ?evs (fst (process_tables get_string re_sub mcs output_dir rest ?evs))"
    by (rule process_tables_prefix)
  then have "set ?evs \<subseteq> set (fst (process_tables get_string re_sub mcs output_dir rest ?evs))"
    by (rule set_mono_prefix)
  then show "WriteText ?p text
         \<in> set (fst (process_tables get_string re_sub mcs output_dir
                       ((table, contents) # rest) evs))"
    unfolding step by auto
next
  show "\<not> strict_prefix (resolve [''out'']) (resolve (joinpath [''out''] (''../evil'' @ ''.rst'')))"
    by (simp add: resolve_def joinpath_def path_parts_def)
next
  show "strict_prefix (resolve [''out'']) (resolve (joinpath [''out''] (''t1'' @ ''.rst'')))"
    by (simp add: resolve_def joinpath_def path_parts_def)
qed

theorem table_escape_logged_not_enforced_witness:
  "process_tables row_lines literal_sub (YMap [(''everywhere'', YMap [])]) [''out'']
     [(''../evil'', YNull), (''t1'', YNull)] []
   = ([Warning (TableEscapes ''../evil''),
       Mkdir [''out'', ''..''],
       WriteText [''out'', ''..'', ''evil.rst''] (no_entries ''../evil''),
       Mkdir [''out''],
       WriteText [''out'', ''t1.rst''] (no_entries ''t1'')],
      None)"
proof -
  let ?m = "YMap [(''everywhere'', YMap [])]"
  have n1: "''../evil'' \<noteq> ''index''" by simp
  have r1: "get_rst_table row_lines literal_sub ?m ''../evil'' YNull = Inr (no_entries ''../evil'')"
    by (simp add: get_rst_table_def)
  have n2: "''t1'' \<noteq> ''index''" by simp
  have r2: "get_rst_table row_lines literal_sub ?m ''t1'' YNull = Inr (no_entries ''t1'')"
    by (simp add: get_rst_table_def)
  note s1 = table_escape_logged_not_enforced [OF n1 r1, THEN conjunct1]
  note s2 = table_escape_logged_not_enforced [OF n2 r2, THEN conjunct1]
  show ?thesis
    by (simp only: s1 s2)
       (simp add: resolve_def joinpath_def path_parts_def path_parent_def)
qed

end
